theory Spec2Isabelle
  imports Main "HOL-Library.Sublist" "HOL-Library.AList" "HOL-Library.Multiset"
begin

section \<open>Email campaign manager: data model\<close>

text \<open>
  The development embeds the campaign send pipeline of \<^verbatim>\<open>gmail_test.py\<close>
  (class \<^verbatim>\<open>EmailCampaignManager\<close>): \<^verbatim>\<open>personalize_email\<close>,
  \<^verbatim>\<open>send_single_email\<close>, \<^verbatim>\<open>log_email\<close>, \<^verbatim>\<open>create_campaign\<close> and
  \<^verbatim>\<open>send_campaign\<close>.

  What lies outside the Python source is modelled as follows.
  \<^item> Python strings are \<open>string\<close>; a character stands for a code point below 256.
  \<^item> The source imports \<^verbatim>\<open>pymongo\<close> and \<^verbatim>\<open>MongoClient\<close> and writes
    \<^verbatim>\<open>pymongo.ObjectId(...)\<close>. The driver's package has no attribute \<^verbatim>\<open>ObjectId\<close>
    (the class is \<^verbatim>\<open>bson.ObjectId\<close>), so the expression raises \<^verbatim>\<open>AttributeError\<close>.
  \<^item> A campaign document and a log entry are dictionaries in the source and association
    lists here. A contact document is the five fields of the \<^verbatim>\<open>Contact\<close> dataclass,
    \<^verbatim>\<open>created_at\<close>, and the list of all its further keys (\<^verbatim>\<open>update_contact\<close> adds
    \<^verbatim>\<open>updated_at\<close>). Template and contact-list documents have the shape in which
    \<^verbatim>\<open>save_template\<close> and \<^verbatim>\<open>create_contact_list\<close> store them.
  \<^item> Database calls themselves do not fail; the SMTP session is an oracle that either
    delivers or raises an exception with a message; \<^verbatim>\<open>datetime.now()\<close> is an oracle
    read through a counter of clock readings.
\<close>

type_synonym oid = string
type_synonym timestamp = nat

datatype field_value =
    StrV string
  | IntV int
  | TimeV timestamp
  | ListV "string list"
  | NoneV

type_synonym document = "(string \<times> field_value) list"

datatype error =
    ValueError string
  | KeyError string
  | TypeError string
  | AttributeError string

text \<open>\<^verbatim>\<open>class EmailStatus(Enum)\<close> and its \<^verbatim>\<open>.value\<close>.\<close>

datatype EmailStatus = PENDING | SENT | FAILED | BOUNCED

fun status_value :: "EmailStatus \<Rightarrow> string" where
  "status_value PENDING = ''pending''"
| "status_value SENT = ''sent''"
| "status_value FAILED = ''failed''"
| "status_value BOUNCED = ''bounced''"

text \<open>
  \<^verbatim>\<open>@dataclass Contact\<close>. The custom-field dictionary is an association list in
  insertion order; field names and values are strings (the source applies \<^verbatim>\<open>str\<close> to
  the values).
\<close>

record Contact =
  email :: string
  first_name :: string
  last_name :: string
  company :: string
  custom_fields :: "(string \<times> string) list"

text \<open>
  A document of the contacts collection: what \<^verbatim>\<open>add_contact\<close> stores
  (\<^verbatim>\<open>asdict(contact)\<close> and \<^verbatim>\<open>created_at\<close>) and the keys added since.
\<close>

record ContactDocument =
  contact_fields :: Contact
  contact_created_at :: timestamp
  extra_keys :: "(string \<times> field_value) list"

record EmailTemplate =
  name :: string
  subject :: string
  body :: string
  html_body :: string
  created_at :: timestamp

record Campaign =
  campaign_name :: string
  template_id :: string
  contact_list_ids :: "string list"
  campaign_created_at :: timestamp
  sent_at :: "timestamp option"
  status :: string
  total_recipients :: int
  sent_count :: int
  failed_count :: int

section \<open>Personalization\<close>

text \<open>
  Python's \<^verbatim>\<open>str.replace(old, new)\<close>: every non-overlapping occurrence of \<open>old\<close>,
  found scanning from the left, is replaced by \<open>new\<close>. For the empty \<open>old\<close> Python
  inserts \<open>new\<close> before every character and at the end.
\<close>

fun replace :: "string \<Rightarrow> string \<Rightarrow> string \<Rightarrow> string" where
  "replace old new [] = (if old = [] then new else [])"
| "replace old new (c # cs) =
     (if old = [] then new @ c # replace old new cs
      else if prefix old (c # cs) then new @ replace old new (drop (length old) (c # cs))
      else c # replace old new cs)"

text \<open>
  \<^verbatim>\<open>str.strip()\<close> without arguments removes leading and trailing whitespace; the
  whitespace code points below 256 are listed.
\<close>

definition is_space :: "char \<Rightarrow> bool" where
  "is_space c \<longleftrightarrow> c \<in> set [CHR 0x09, CHR 0x0A, CHR 0x0B, CHR 0x0C, CHR 0x0D,
     CHR 0x1C, CHR 0x1D, CHR 0x1E, CHR 0x1F, CHR 0x20, CHR 0x85, CHR 0xA0]"

definition strip :: "string \<Rightarrow> string" where
  "strip s = rev (dropWhile is_space (rev (dropWhile is_space s)))"

text \<open>The dictionary \<^verbatim>\<open>placeholders\<close> of \<^verbatim>\<open>personalize_email\<close>, in insertion order.\<close>

definition placeholders :: "Contact \<Rightarrow> (string \<times> string) list" where
  "placeholders contact =
     [(''{{first_name}}'', first_name contact),
      (''{{last_name}}'', last_name contact),
      (''{{email}}'', email contact),
      (''{{company}}'', company contact),
      (''{{full_name}}'', strip (first_name contact @ '' '' @ last_name contact))]"

text \<open>The placeholder and value of each custom field, in the dictionary's order.\<close>

definition custom_placeholders :: "Contact \<Rightarrow> (string \<times> string) list" where
  "custom_placeholders contact =
     map (\<lambda>(field_name, field_value). (''{{custom.'' @ field_name @ ''}}'', field_value))
       (custom_fields contact)"

text \<open>
  The two \<^verbatim>\<open>for\<close> loops of \<^verbatim>\<open>personalize_email\<close> both run
  \<^verbatim>\<open>content = content.replace(placeholder, str(value))\<close> over a sequence of pairs.
\<close>

fun replace_each :: "(string \<times> string) list \<Rightarrow> string \<Rightarrow> string" where
  "replace_each [] content = content"
| "replace_each ((placeholder, v) # rest) content = replace_each rest (replace placeholder v content)"

definition personalize_email :: "string \<Rightarrow> Contact \<Rightarrow> string" where
  "personalize_email template_content contact =
     replace_each (custom_placeholders contact)
       (replace_each (placeholders contact) template_content)"

section \<open>The manager: storage, SMTP configuration, oracles\<close>

record SmtpConfig =
  server :: string
  port :: int
  username :: string
  password :: string
  use_tls :: bool

record ContactList =
  list_name :: string
  description :: string
  contact_ids :: "oid list"

text \<open>
  The attributes of \<^verbatim>\<open>EmailCampaignManager\<close> that the pipeline touches: the five
  collections and \<^verbatim>\<open>smtp_config\<close>. \<open>clock_reads\<close> counts the calls of
  \<^verbatim>\<open>datetime.now()\<close> made so far.
\<close>

record manager =
  contacts_collection :: "(oid \<times> ContactDocument) list"
  templates_collection :: "(oid \<times> EmailTemplate) list"
  campaigns_collection :: "document list"
  contact_lists_collection :: "(oid \<times> ContactList) list"
  email_logs_collection :: "document list"
  smtp_config :: SmtpConfig
  clock_reads :: nat

text \<open>
  The world outside the program. \<open>smtp_session cfg to subject body html attachments\<close> is
  the outcome of the \<^verbatim>\<open>try\<close> block of \<^verbatim>\<open>send_single_email\<close> up to
  \<^verbatim>\<open>server.quit()\<close>: \<open>None\<close> when the message went out, \<open>Some msg\<close> when an
  exception with \<^verbatim>\<open>str(e) = msg\<close> was raised. \<open>datetime_now k\<close> is what the
  \<open>k\<close>-th reading of the clock returns.
\<close>

record environment =
  smtp_session :: "SmtpConfig \<Rightarrow> string \<Rightarrow> string \<Rightarrow> string \<Rightarrow> string \<Rightarrow> string list option
                    \<Rightarrow> string option"
  datetime_now :: "nat \<Rightarrow> timestamp"

text \<open>The configuration that \<^verbatim>\<open>__init__\<close> installs, and \<^verbatim>\<open>configure_smtp\<close>.\<close>

definition initial_smtp_config :: SmtpConfig where
  "initial_smtp_config =
     \<lparr>server = [], port = 587, username = [], password = [], use_tls = True\<rparr>"

definition configure_smtp :: "string \<Rightarrow> int \<Rightarrow> string \<Rightarrow> string \<Rightarrow> bool \<Rightarrow> manager \<Rightarrow> manager" where
  "configure_smtp srv prt usr pwd tls s =
     s\<lparr>smtp_config := \<lparr>server = srv, port = prt, username = usr, password = pwd, use_tls = tls\<rparr>\<rparr>"

text \<open>A text between single quotes, as Python prints names in its messages.\<close>

definition quoted :: "string \<Rightarrow> string" where
  "quoted x = [CHR 0x27] @ x @ [CHR 0x27]"

text \<open>
  The expression \<^verbatim>\<open>pymongo.ObjectId(arg)\<close>. Python looks the attribute up before it
  evaluates the argument, and the look-up fails: whatever the argument is, and even when
  the argument itself would raise, the expression raises \<^verbatim>\<open>AttributeError\<close>.
\<close>

definition no_ObjectId :: error where
  "no_ObjectId =
     AttributeError (''module '' @ quoted ''pymongo'' @ '' has no attribute '' @ quoted ''ObjectId'')"

definition pymongo_ObjectId :: "error + field_value \<Rightarrow> error + oid" where
  "pymongo_ObjectId arg = Inl no_ObjectId"

subsection \<open>Collection operations\<close>

text \<open>\<^verbatim>\<open>find_one({"name": n})\<close>: the first document whose \<^verbatim>\<open>name\<close> is \<open>n\<close>.\<close>

definition has_name :: "string \<Rightarrow> document \<Rightarrow> bool" where
  "has_name n d \<longleftrightarrow> map_of d ''name'' = Some (StrV n)"

definition find_one_by_name :: "string \<Rightarrow> document list \<Rightarrow> document option" where
  "find_one_by_name n docs = find (has_name n) docs"

text \<open>The update operator \<^verbatim>\<open>$set\<close>: each key is overwritten in place or appended.\<close>

fun set_fields :: "(string \<times> field_value) list \<Rightarrow> document \<Rightarrow> document" where
  "set_fields [] d = d"
| "set_fields ((k, v) # fs) d = set_fields fs (AList.update k v d)"

text \<open>\<^verbatim>\<open>update_one({"name": n}, {"$set": fs})\<close> changes the first matching document only.\<close>

fun update_one_by_name :: "string \<Rightarrow> (string \<times> field_value) list \<Rightarrow> document list \<Rightarrow> document list" where
  "update_one_by_name n fs [] = []"
| "update_one_by_name n fs (d # ds) =
     (if has_name n d then set_fields fs d # ds else d # update_one_by_name n fs ds)"

section \<open>Sending one email\<close>

definition log_email :: "environment \<Rightarrow> string \<Rightarrow> string \<Rightarrow> string \<Rightarrow> string \<Rightarrow> manager \<Rightarrow> manager" where
  "log_email env to_email subj stat error_message s =
     (let log_entry =
        [(''to_email'', StrV to_email),
         (''subject'', StrV subj),
         (''status'', StrV stat),
         (''timestamp'', TimeV (datetime_now env (clock_reads s))),
         (''error_message'', StrV error_message)]
      in s\<lparr>email_logs_collection := email_logs_collection s @ [log_entry],
           clock_reads := Suc (clock_reads s)\<rparr>)"

text \<open>
  \<^verbatim>\<open>send_single_email\<close>: the configuration check raises before the \<^verbatim>\<open>try\<close>;
  inside it, success is logged and returns \<^verbatim>\<open>True\<close>, any exception is logged with its
  message and returns \<^verbatim>\<open>False\<close>.
\<close>

definition send_single_email ::
  "environment \<Rightarrow> string \<Rightarrow> string \<Rightarrow> string \<Rightarrow> string \<Rightarrow> string list option \<Rightarrow> manager
     \<Rightarrow> (error + bool) \<times> manager" where
  "send_single_email env to_email subj bdy html attachments s =
     (if server (smtp_config s) = []
      then (Inl (ValueError ''SMTP configuration not set. Use configure_smtp() first.''), s)
      else (case smtp_session env (smtp_config s) to_email subj bdy html attachments of
              None \<Rightarrow> (Inr True, log_email env to_email subj (status_value SENT) [] s)
            | Some e \<Rightarrow> (Inr False, log_email env to_email subj (status_value FAILED) e s)))"

section \<open>Campaigns\<close>

text \<open>\<^verbatim>\<open>asdict(campaign)\<close>, the document that \<^verbatim>\<open>create_campaign\<close> inserts.\<close>

definition asdict_Campaign :: "Campaign \<Rightarrow> document" where
  "asdict_Campaign c =
     [(''name'', StrV (campaign_name c)),
      (''template_id'', StrV (template_id c)),
      (''contact_list_ids'', ListV (contact_list_ids c)),
      (''created_at'', TimeV (campaign_created_at c)),
      (''sent_at'', (case sent_at c of None \<Rightarrow> NoneV | Some t \<Rightarrow> TimeV t)),
      (''status'', StrV (status c)),
      (''total_recipients'', IntV (total_recipients c)),
      (''sent_count'', IntV (sent_count c)),
      (''failed_count'', IntV (failed_count c))]"

text \<open>
  \<^verbatim>\<open>create_campaign\<close>; \<open>new_id\<close> is the \<^verbatim>\<open>_id\<close> the database assigns. The unique
  index on \<^verbatim>\<open>name\<close> rejects a second campaign of the same name.
\<close>

definition create_campaign :: "oid \<Rightarrow> Campaign \<Rightarrow> manager \<Rightarrow> (error + string) \<times> manager" where
  "create_campaign new_id campaign s =
     (case find_one_by_name (campaign_name campaign) (campaigns_collection s) of
        Some _ \<Rightarrow>
          (Inl (ValueError (''Campaign with name '' @ quoted (campaign_name campaign)
                              @ '' already exists'')), s)
      | None \<Rightarrow>
          (Inr new_id,
           s\<lparr>campaigns_collection :=
               campaigns_collection s @ [(''_id'', StrV new_id) # asdict_Campaign campaign]\<rparr>))"

subsection \<open>Recipient resolution\<close>

text \<open>
  \<^verbatim>\<open>Contact(**contact_doc)\<close> after \<^verbatim>\<open>_id\<close> and \<^verbatim>\<open>created_at\<close> have been popped:
  the dataclass takes its five fields and nothing else, so any further key of the document
  is an unexpected keyword argument.
\<close>

definition Contact_from_document :: "ContactDocument \<Rightarrow> error + Contact" where
  "Contact_from_document contact_doc =
     (case extra_keys contact_doc of
        [] \<Rightarrow> Inr (contact_fields contact_doc)
      | (k, v) # _ \<Rightarrow>
          Inl (TypeError (''__init__() got an unexpected keyword argument '' @ quoted k)))"

text \<open>
  The inner loop over \<^verbatim>\<open>list_doc['contact_ids']\<close>: a dangling id is skipped; an
  exception of \<^verbatim>\<open>pymongo.ObjectId(contact_id)\<close> or of the \<^verbatim>\<open>Contact\<close> constructor
  is not caught and ends the call.
\<close>

fun list_contacts :: "manager \<Rightarrow> string list \<Rightarrow> error + Contact list" where
  "list_contacts s [] = Inr []"
| "list_contacts s (contact_id # rest) =
     (case pymongo_ObjectId (Inr (StrV contact_id)) of
        Inl e \<Rightarrow> Inl e
      | Inr key \<Rightarrow>
          (case map_of (contacts_collection s) key of
             None \<Rightarrow> list_contacts s rest
           | Some contact_doc \<Rightarrow>
               (case Contact_from_document contact_doc of
                  Inl e \<Rightarrow> Inl e
                | Inr contact \<Rightarrow>
                    (case list_contacts s rest of
                       Inl e \<Rightarrow> Inl e
                     | Inr contacts \<Rightarrow> Inr (contact # contacts)))))"

text \<open>
  The outer loop over \<^verbatim>\<open>campaign_doc['contact_list_ids']\<close>: a dangling list is skipped,
  an exception ends the call.
\<close>

fun all_contacts :: "manager \<Rightarrow> string list \<Rightarrow> error + Contact list" where
  "all_contacts s [] = Inr []"
| "all_contacts s (list_id # rest) =
     (case pymongo_ObjectId (Inr (StrV list_id)) of
        Inl e \<Rightarrow> Inl e
      | Inr key \<Rightarrow>
          (case map_of (contact_lists_collection s) key of
             None \<Rightarrow> all_contacts s rest
           | Some list_doc \<Rightarrow>
               (case list_contacts s (contact_ids list_doc) of
                  Inl e \<Rightarrow> Inl e
                | Inr contacts \<Rightarrow>
                    (case all_contacts s rest of
                       Inl e \<Rightarrow> Inl e
                     | Inr others \<Rightarrow> Inr (contacts @ others)))))"

text \<open>The duplicate filter, with \<^verbatim>\<open>seen_emails\<close> as the loop's second variable.\<close>

fun unique_contacts :: "Contact list \<Rightarrow> string set \<Rightarrow> Contact list" where
  "unique_contacts [] seen_emails = []"
| "unique_contacts (contact # rest) seen_emails =
     (if email contact \<notin> seen_emails
      then contact # unique_contacts rest (insert (email contact) seen_emails)
      else unique_contacts rest seen_emails)"

subsection \<open>The dispatch loop\<close>

text \<open>The body of the \<^verbatim>\<open>try\<close> in the loop of \<^verbatim>\<open>send_campaign\<close>.\<close>

definition send_to_contact ::
  "environment \<Rightarrow> EmailTemplate \<Rightarrow> string list option \<Rightarrow> Contact \<Rightarrow> manager
     \<Rightarrow> (error + bool) \<times> manager" where
  "send_to_contact env template attachments contact s =
     (let personalized_subject = personalize_email (subject template) contact;
          personalized_body = personalize_email (body template) contact;
          personalized_html =
            (if html_body template \<noteq> [] then personalize_email (html_body template) contact
             else [])
      in send_single_email env (email contact) personalized_subject personalized_body
           personalized_html attachments s)"

text \<open>
  The loop with its two counters \<^verbatim>\<open>sent_count\<close> and \<^verbatim>\<open>failed_count\<close>.
  \<^verbatim>\<open>True\<close> counts as sent, \<^verbatim>\<open>False\<close> as failed, and the
  \<^verbatim>\<open>except Exception\<close> clause counts an exception as failed.
\<close>

fun send_all ::
  "environment \<Rightarrow> EmailTemplate \<Rightarrow> string list option \<Rightarrow> Contact list \<Rightarrow> int \<times> int \<Rightarrow> manager
     \<Rightarrow> (int \<times> int) \<times> manager" where
  "send_all env template attachments [] counts s = (counts, s)"
| "send_all env template attachments (contact # rest) (sent_cnt, failed_cnt) s =
     (case send_to_contact env template attachments contact s of
        (Inr True, s') \<Rightarrow> send_all env template attachments rest (sent_cnt + 1, failed_cnt) s'
      | (Inr False, s') \<Rightarrow> send_all env template attachments rest (sent_cnt, failed_cnt + 1) s'
      | (Inl e, s') \<Rightarrow> send_all env template attachments rest (sent_cnt, failed_cnt + 1) s')"

subsection \<open>The whole send\<close>

record stats =
  sent :: int
  failed :: int
  total :: int

text \<open>The \<^verbatim>\<open>$set\<close> document of the final \<^verbatim>\<open>update_one\<close>, keys as the source spells them.\<close>

definition campaign_update :: "timestamp \<Rightarrow> int \<Rightarrow> int \<Rightarrow> int \<Rightarrow> (string \<times> field_value) list" where
  "campaign_update now total_count sent_cnt failed_cnt =
     [(''status'', StrV ''sent''),
      (''sent_at'', TimeV now),
      (''total_recipient'', IntV total_count),
      (''sent_count'', IntV sent_cnt),
      (''failed_count'', IntV failed_cnt)]"

text \<open>
  The dispatch stage of \<^verbatim>\<open>send_campaign\<close>, lines 502 to 556: from the contacts gathered
  in \<^verbatim>\<open>all_contacts\<close> it removes the duplicates, runs the loop, writes the campaign
  back and returns the statistics. Nothing in it can raise in this model.
\<close>

definition dispatch ::
  "environment \<Rightarrow> string \<Rightarrow> EmailTemplate \<Rightarrow> Contact list \<Rightarrow> string list option \<Rightarrow> manager
     \<Rightarrow> stats \<times> manager" where
  "dispatch env cname template gathered attachments s =
     (let unique = unique_contacts gathered {};
          total_count = int (length unique);
          ((sent_cnt, failed_cnt), s1) = send_all env template attachments unique (0, 0) s;
          s2 = s1\<lparr>campaigns_collection :=
                     update_one_by_name cname
                       (campaign_update (datetime_now env (clock_reads s1))
                          total_count sent_cnt failed_cnt)
                       (campaigns_collection s1),
                   clock_reads := Suc (clock_reads s1)\<rparr>
      in (\<lparr>sent = sent_cnt, failed = failed_cnt, total = total_count\<rparr>, s2))"

text \<open>Subscription \<^verbatim>\<open>doc[key]\<close>: a missing key is \<^verbatim>\<open>KeyError\<close>.\<close>

definition getitem :: "document \<Rightarrow> string \<Rightarrow> error + field_value" where
  "getitem d k = (case map_of d k of None \<Rightarrow> Inl (KeyError k) | Some v \<Rightarrow> Inr v)"

text \<open>
  \<^verbatim>\<open>send_campaign\<close>. Every exception before the loop leaves the function, with nothing
  written. At line 483 the expression \<^verbatim>\<open>pymongo.ObjectId(campaign_doc['template_id'])\<close> is
  evaluated before \<^verbatim>\<open>find_one\<close> is called.
\<close>

definition send_campaign ::
  "environment \<Rightarrow> string \<Rightarrow> string list option \<Rightarrow> manager \<Rightarrow> (error + stats) \<times> manager" where
  "send_campaign env cname attachments s =
     (case find_one_by_name cname (campaigns_collection s) of
        None \<Rightarrow> (Inl (ValueError (''Campaign not found: '' @ cname)), s)
      | Some campaign_doc \<Rightarrow>
          (case pymongo_ObjectId (getitem campaign_doc ''template_id'') of
             Inl e \<Rightarrow> (Inl e, s)
           | Inr key \<Rightarrow>
               (case map_of (templates_collection s) key of
                  None \<Rightarrow> (Inl (ValueError (''Template not found for campaign: '' @ cname)), s)
                | Some template \<Rightarrow>
                    (case getitem campaign_doc ''contact_list_ids'' of
                       Inl e \<Rightarrow> (Inl e, s)
                     | Inr (ListV list_ids) \<Rightarrow>
                         (case all_contacts s list_ids of
                            Inl e \<Rightarrow> (Inl e, s)
                          | Inr gathered \<Rightarrow>
                              (case dispatch env cname template gathered attachments s of
                                 (st, s') \<Rightarrow> (Inr st, s')))
                     | Inr _ \<Rightarrow> (Inl (TypeError ''contact_list_ids''), s)))))"

section \<open>Templates with well-formed placeholders\<close>

text \<open>
  The placeholder syntax of the specification: a template is literal text interleaved with
  tokens \<^verbatim>\<open>{{name}}\<close>, "exact double-curly-brace delimiters, no nested braces". A
  template of that shape is described by its parts; \<open>render\<close> gives the string that
  \<^verbatim>\<open>personalize_email\<close> receives.
\<close>

datatype part = Lit string | Tok string

definition tok :: "string \<Rightarrow> string" where
  "tok n = ''{{'' @ n @ ''}}''"

fun render_part :: "part \<Rightarrow> string" where
  "render_part (Lit s) = s"
| "render_part (Tok n) = tok n"

definition render :: "part list \<Rightarrow> string" where
  "render parts = concat (map render_part parts)"

definition brace_free :: "string \<Rightarrow> bool" where
  "brace_free n \<longleftrightarrow> CHR ''{'' \<notin> set n \<and> CHR ''}'' \<notin> set n"

text \<open>The literal text of a template: what is left when the tokens are taken out.\<close>

fun literal_part :: "part \<Rightarrow> string" where
  "literal_part (Lit s) = s"
| "literal_part (Tok n) = []"

definition literal_text :: "part list \<Rightarrow> string" where
  "literal_text parts = concat (map literal_part parts)"

text \<open>A text in which no two opening braces stand next to each other.\<close>

fun no_double_open :: "string \<Rightarrow> bool" where
  "no_double_open [] = True"
| "no_double_open [c] = True"
| "no_double_open (c # d # cs) = (\<not> (c = CHR ''{'' \<and> d = CHR ''{'') \<and> no_double_open (d # cs))"

fun token_ok :: "part \<Rightarrow> bool" where
  "token_ok (Lit s) = True"
| "token_ok (Tok n) = brace_free n"

text \<open>
  A well-formed template: token names contain no brace, and the literal text contains no
  double opening brace. Single braces in the literal text are free. The second condition
  says that a double opening brace never arises from literal text alone, neither inside a
  stretch of it nor across tokens that give way to empty values.
\<close>

definition wf_template :: "part list \<Rightarrow> bool" where
  "wf_template parts \<longleftrightarrow> list_all token_ok parts \<and> no_double_open (literal_text parts)"

text \<open>
  A contact none of whose values contains an opening brace, and whose custom field names
  contain no brace.
\<close>

definition plain_contact :: "Contact \<Rightarrow> bool" where
  "plain_contact c \<longleftrightarrow>
     CHR ''{'' \<notin> set (first_name c) \<and> CHR ''{'' \<notin> set (last_name c) \<and>
     CHR ''{'' \<notin> set (email c) \<and> CHR ''{'' \<notin> set (company c) \<and>
     list_all (\<lambda>(field_name, field_value). brace_free field_name \<and> CHR ''{'' \<notin> set field_value)
       (custom_fields c)"

text \<open>
  The specification's table of recognized placeholders: the value that stands for the
  token \<^verbatim>\<open>{{n}}\<close>, if \<open>n\<close> is recognized for this contact.
\<close>

definition spec_placeholder_value :: "Contact \<Rightarrow> string \<Rightarrow> string option" where
  "spec_placeholder_value c n =
     (if n = ''first_name'' then Some (first_name c)
      else if n = ''last_name'' then Some (last_name c)
      else if n = ''full_name'' then Some (strip (first_name c @ '' '' @ last_name c))
      else if n = ''email'' then Some (email c)
      else if n = ''company'' then Some (company c)
      else if prefix ''custom.'' n then map_of (custom_fields c) (drop 7 n)
      else None)"

text \<open>
  The specification's contract: every recognized token gives way to its value, every other
  token and all literal text stay as they are.
\<close>

fun spec_expand :: "Contact \<Rightarrow> part \<Rightarrow> string" where
  "spec_expand c (Lit s) = s"
| "spec_expand c (Tok n) = (case spec_placeholder_value c n of Some v \<Rightarrow> v | None \<Rightarrow> tok n)"

definition spec_personalize :: "part list \<Rightarrow> Contact \<Rightarrow> string" where
  "spec_personalize parts c = concat (map (spec_expand c) parts)"

text \<open>
  Replacing one token by a value, and all the tokens of a list of placeholder-value pairs,
  part by part; a list of pairs whose keys are tokens with brace-free names and whose
  values contain no opening brace.
\<close>

fun subst1 :: "string \<Rightarrow> string \<Rightarrow> part \<Rightarrow> part" where
  "subst1 p v (Lit s) = Lit s"
| "subst1 p v (Tok n) = (if n = p then Lit v else Tok n)"

fun subst_all :: "(string \<times> string) list \<Rightarrow> part \<Rightarrow> part" where
  "subst_all ps (Lit s) = Lit s"
| "subst_all ps (Tok n) = (case map_of ps (tok n) of Some v \<Rightarrow> Lit v | None \<Rightarrow> Tok n)"

definition token_pairs :: "(string \<times> string) list \<Rightarrow> bool" where
  "token_pairs ps \<longleftrightarrow>
     list_all (\<lambda>(k, v). (\<exists>n. k = tok n \<and> brace_free n) \<and> CHR ''{'' \<notin> set v) ps"

section \<open>Notions used to state the properties of a run\<close>

text \<open>
  What the SMTP session does with the message that \<^verbatim>\<open>send_campaign\<close> builds for one
  contact, and whether the contact counts as sent.
\<close>

definition session_outcome ::
  "environment \<Rightarrow> SmtpConfig \<Rightarrow> EmailTemplate \<Rightarrow> string list option \<Rightarrow> Contact \<Rightarrow> string option" where
  "session_outcome env cfg template attachments contact =
     smtp_session env cfg (email contact)
       (personalize_email (subject template) contact)
       (personalize_email (body template) contact)
       (if html_body template \<noteq> [] then personalize_email (html_body template) contact else [])
       attachments"

definition delivers ::
  "environment \<Rightarrow> SmtpConfig \<Rightarrow> EmailTemplate \<Rightarrow> string list option \<Rightarrow> Contact \<Rightarrow> bool" where
  "delivers env cfg template attachments contact \<longleftrightarrow>
     server cfg \<noteq> [] \<and> session_outcome env cfg template attachments contact = None"

text \<open>
  The log entry that the attempt for one contact appends when the server is configured
  and the clock has been read \<open>k\<close> times, and the entries of a whole run.
\<close>

definition attempt_entry ::
  "environment \<Rightarrow> SmtpConfig \<Rightarrow> EmailTemplate \<Rightarrow> string list option \<Rightarrow> nat \<Rightarrow> Contact \<Rightarrow> document" where
  "attempt_entry env cfg template attachments k contact =
     [(''to_email'', StrV (email contact)),
      (''subject'', StrV (personalize_email (subject template) contact)),
      (''status'', StrV (case session_outcome env cfg template attachments contact of
                           None \<Rightarrow> ''sent'' | Some e \<Rightarrow> ''failed'')),
      (''timestamp'', TimeV (datetime_now env k)),
      (''error_message'', StrV (case session_outcome env cfg template attachments contact of
                                  None \<Rightarrow> [] | Some e \<Rightarrow> e))]"

fun run_entries ::
  "environment \<Rightarrow> SmtpConfig \<Rightarrow> EmailTemplate \<Rightarrow> string list option \<Rightarrow> nat \<Rightarrow> Contact list
     \<Rightarrow> document list" where
  "run_entries env cfg template attachments k [] = []"
| "run_entries env cfg template attachments k (contact # rest) =
     attempt_entry env cfg template attachments k contact
       # run_entries env cfg template attachments (Suc k) rest"


text \<open>The state after the attempt for one contact has been logged.\<close>

definition logged ::
  "environment \<Rightarrow> EmailTemplate \<Rightarrow> string list option \<Rightarrow> Contact \<Rightarrow> manager \<Rightarrow> manager" where
  "logged env template attachments contact s =
     s\<lparr>email_logs_collection := email_logs_collection s
           @ [attempt_entry env (smtp_config s) template attachments (clock_reads s) contact],
        clock_reads := Suc (clock_reads s)\<rparr>"

section \<open>Example data\<close>

text \<open>
  Two contacts, list A with the first and list B with both, one template, and the
  campaign \<^verbatim>\<open>spring\<close> created through \<^verbatim>\<open>create_campaign\<close> over both lists.
\<close>

definition ana :: Contact where
  "ana = \<lparr>email = ''a@x.com'', first_name = ''Ana'', last_name = ''Lee'', company = ''Acme'',
           custom_fields = [(''city'', ''Porto'')]\<rparr>"

definition bo :: Contact where
  "bo = \<lparr>email = ''b@x.com'', first_name = ''Bo'', last_name = [], company = [],
          custom_fields = []\<rparr>"

definition welcome_email :: EmailTemplate where
  "welcome_email = \<lparr>name = ''Welcome'', subject = ''Hi {{first_name}}!'',
               body = ''Dear {{full_name}} of {{company}}'', html_body = [], created_at = 5\<rparr>"

definition spring :: Campaign where
  "spring = \<lparr>campaign_name = ''spring'', template_id = ''t1'', contact_list_ids = [''lA'', ''lB''],
              campaign_created_at = 7, sent_at = None, status = ''draft'', total_recipients = 0,
              sent_count = 0, failed_count = 0\<rparr>"

definition fresh_manager :: manager where
  "fresh_manager =
     \<lparr>contacts_collection =
        [(''c1'', \<lparr>contact_fields = ana, contact_created_at = 1, extra_keys = []\<rparr>),
         (''c2'', \<lparr>contact_fields = bo, contact_created_at = 2, extra_keys = []\<rparr>)],
      templates_collection = [(''t1'', welcome_email)],
      campaigns_collection = [],
      contact_lists_collection =
        [(''lA'', \<lparr>list_name = ''A'', description = [], contact_ids = [''c1'']\<rparr>),
         (''lB'', \<lparr>list_name = ''B'', description = [], contact_ids = [''c1'', ''c2'']\<rparr>)],
      email_logs_collection = [],
      smtp_config = initial_smtp_config,
      clock_reads = 0\<rparr>"

text \<open>The manager after \<^verbatim>\<open>create_campaign(spring)\<close>, SMTP still unconfigured.\<close>

definition unconfigured_manager :: manager where
  "unconfigured_manager = snd (create_campaign ''k1'' spring fresh_manager)"

definition demo_manager :: manager where
  "demo_manager = configure_smtp ''smtp.x.com'' 587 ''me@x.com'' ''pw'' True unconfigured_manager"

text \<open>A transport that refuses \<^verbatim>\<open>b@x.com\<close> and delivers to everybody else.\<close>

definition demo_env :: environment where
  "demo_env =
     \<lparr>smtp_session = (\<lambda>cfg to_email subj bdy html attachments.
        if to_email = ''b@x.com'' then Some ''550 mailbox unavailable'' else None),
      datetime_now = (\<lambda>k. 1000 + k)\<rparr>"

text \<open>A campaign whose template is gone, and one whose lists resolve to nobody.\<close>

definition orphan_manager :: manager where
  "orphan_manager =
     snd (create_campaign ''k2'' (spring\<lparr>campaign_name := ''orphan'', template_id := ''t9''\<rparr>)
            fresh_manager)"

definition empty_manager :: manager where
  "empty_manager =
     snd (create_campaign ''k3'' (spring\<lparr>campaign_name := ''nobody'', contact_list_ids := [''lZ'']\<rparr>)
            fresh_manager)"

text \<open>The documents that \<^verbatim>\<open>create_campaign\<close> stored for the three campaigns.\<close>

definition spring_doc :: document where
  "spring_doc = (''_id'', StrV ''k1'') # asdict_Campaign spring"

definition orphan_doc :: document where
  "orphan_doc =
     (''_id'', StrV ''k2'')
       # asdict_Campaign (spring\<lparr>campaign_name := ''orphan'', template_id := ''t9''\<rparr>)"

definition nobody_doc :: document where
  "nobody_doc =
     (''_id'', StrV ''k3'')
       # asdict_Campaign (spring\<lparr>campaign_name := ''nobody'', contact_list_ids := [''lZ'']\<rparr>)"

text \<open>The contact document of \<^verbatim>\<open>b@x.com\<close> after a call of \<^verbatim>\<open>update_contact\<close>.\<close>

definition bo_updated :: ContactDocument where
  "bo_updated =
     \<lparr>contact_fields = bo, contact_created_at = 2, extra_keys = [(''updated_at'', TimeV 9)]\<rparr>"

text \<open>
  A template with single braces in its literal text and with recognized and unrecognized
  tokens; a template whose literal text alone holds a double opening brace; a contact whose
  first name is a placeholder, and a contact without a first name.
\<close>

definition greeting :: "part list" where
  "greeting = [Lit ''p {color: red} Hi '', Tok ''first_name'', Lit ''! '', Tok ''custom.city'',
               Lit '' '', Tok ''custom.zip'', Tok ''unknown'', Lit ''{'']"

definition joined :: "part list" where
  "joined = [Lit ''{{'', Tok ''first_name'', Lit ''last_name}}'']"

definition tricky :: Contact where
  "tricky = \<lparr>email = ''t@x.com'', first_name = ''{{last_name}}'', last_name = ''X'', company = [],
           custom_fields = []\<rparr>"

definition nameless :: Contact where
  "nameless = \<lparr>email = ''n@x.com'', first_name = [], last_name = ''X'', company = [],
           custom_fields = []\<rparr>"

text \<open>
  A contact one of whose custom field names contains braces, and a template of two custom
  tokens that together read as the placeholder of that field.
\<close>

definition braced :: Contact where
  "braced = \<lparr>email = ''c@x.com'', first_name = [], last_name = [], company = [],
           custom_fields = [(''a}}{{custom.b'', ''v''), (''a'', ''w'')]\<rparr>"

definition custom_pair :: "part list" where
  "custom_pair = [Tok ''custom.a'', Tok ''custom.b'']"

section \<open>Sequential replacement on well-formed templates\<close>

lemma replace_skip:
  "CHR ''{'' \<notin> set s \<Longrightarrow> replace (CHR ''{'' # P) v (s @ R) = s @ replace (CHR ''{'' # P) v R"
  by (induction s) auto

lemma no_double_open_Cons:
  "no_double_open (c # s) \<longleftrightarrow>
     (c = CHR ''{'' \<longrightarrow> s = [] \<or> hd s \<noteq> CHR ''{'') \<and> no_double_open s"
  by (cases s) auto

lemma no_double_open_append_left: "no_double_open (a @ b) \<Longrightarrow> no_double_open a"
proof (induction a)
  case Nil
  then show ?case by simp
next
  case (Cons c a)
  then show ?case
    by (cases a) (auto simp: no_double_open_Cons simp del: no_double_open.simps)
qed

lemma no_double_open_append_right: "no_double_open (a @ b) \<Longrightarrow> no_double_open b"
  by (induction a) (auto simp: no_double_open_Cons simp del: no_double_open.simps)

lemma no_double_open_plain: "CHR ''{'' \<notin> set v \<Longrightarrow> no_double_open b \<Longrightarrow> no_double_open (v @ b)"
  by (induction v) (auto simp: no_double_open_Cons simp del: no_double_open.simps)

lemma no_double_open_insert:
  "no_double_open (a @ b) \<Longrightarrow> CHR ''{'' \<notin> set v \<Longrightarrow> no_double_open (a @ v @ b)"
proof (induction a)
  case Nil
  then show ?case by (simp add: no_double_open_plain)
next
  case (Cons c a)
  from Cons.prems(1) have tl: "no_double_open (a @ b)"
    by (simp add: no_double_open_Cons del: no_double_open.simps)
  have hd: "c = CHR ''{'' \<longrightarrow> a @ v @ b = [] \<or> hd (a @ v @ b) \<noteq> CHR ''{''"
  proof (cases a)
    case Nil
    show ?thesis
    proof (cases v)
      case Nil
      with \<open>a = []\<close> Cons.prems(1) show ?thesis
        by (simp add: no_double_open_Cons del: no_double_open.simps)
    next
      case (Cons d vs)
      with \<open>a = []\<close> Cons.prems(2) show ?thesis by auto
    qed
  next
    case (Cons d as)
    with Cons.prems(1) show ?thesis
      by (simp add: no_double_open_Cons del: no_double_open.simps)
  qed
  show ?case
    using Cons.IH[OF tl Cons.prems(2)] hd
    by (simp add: no_double_open_Cons del: no_double_open.simps)
qed

lemma replace_literal:
  assumes "no_double_open s"
    and "s \<noteq> [] \<and> last s = CHR ''{'' \<longrightarrow> \<not> prefix (CHR ''{'' # P) R"
  shows "replace (CHR ''{'' # CHR ''{'' # P) v (s @ R) = s @ replace (CHR ''{'' # CHR ''{'' # P) v R"
  using assms
proof (induction s)
  case Nil
  then show ?case by simp
next
  case (Cons c s)
  from Cons.prems(1) have tl: "no_double_open s"
    by (simp add: no_double_open_Cons del: no_double_open.simps)
  have np: "\<not> prefix (CHR ''{'' # CHR ''{'' # P) (c # s @ R)"
  proof (cases s)
    case Nil
    with Cons.prems(2) show ?thesis by auto
  next
    case (Cons d ds)
    with Cons.prems(1) show ?thesis by auto
  qed
  have cond: "s \<noteq> [] \<and> last s = CHR ''{'' \<longrightarrow> \<not> prefix (CHR ''{'' # P) R"
    using Cons.prems(2) by auto
  have step: "replace (CHR ''{'' # CHR ''{'' # P) v (c # s @ R)
                = c # replace (CHR ''{'' # CHR ''{'' # P) v (s @ R)"
    by (simp only: replace.simps np if_False list.distinct)
  show ?case using step Cons.IH[OF tl cond] by simp
qed

lemma not_prefix_tok:
  "brace_free p \<Longrightarrow> brace_free n \<Longrightarrow> n \<noteq> p \<Longrightarrow> \<not> prefix (p @ ''}}'') (n @ ''}}'' @ R)"
proof (induction p arbitrary: n)
  case Nil
  then show ?case by (cases n) (auto simp: brace_free_def)
next
  case (Cons a p)
  then show ?case by (cases n) (auto simp: brace_free_def)
qed

lemma tok_inject: "tok a = tok b \<longleftrightarrow> a = b"
  by (simp add: tok_def)

lemma replace_tok:
  assumes "brace_free p" "brace_free n"
  shows "replace (tok p) v (tok n @ R) = (if n = p then v else tok n) @ replace (tok p) v R"
proof (cases "n = p")
  case True
  then show ?thesis by (simp add: tok_def)
next
  case False
  have np: "\<not> prefix (p @ ''}}'') (n @ ''}}'' @ R)"
    using not_prefix_tok[OF assms False] .
  have n1: "CHR ''{'' \<notin> set (n @ ''}}'')" using assms(2) by (simp add: brace_free_def)
  have hd: "\<not> prefix (CHR ''{'' # p @ ''}}'') (n @ ''}}'' @ R)"
    using assms(2) by (cases n) (auto simp: brace_free_def)
  have "replace (tok p) v (tok n @ R) = CHR ''{'' # replace (tok p) v (CHR ''{'' # (n @ ''}}'') @ R)"
    using np by (simp add: tok_def)
  also have "\<dots> = CHR ''{'' # CHR ''{'' # replace (tok p) v ((n @ ''}}'') @ R)"
    using hd by (simp add: tok_def)
  also have "\<dots> = CHR ''{'' # CHR ''{'' # (n @ ''}}'') @ replace (tok p) v R"
    using replace_skip[OF n1, of "CHR ''{'' # p @ ''}}''" v R] by (simp add: tok_def)
  finally show ?thesis using False by (simp add: tok_def)
qed

lemma no_completion:
  assumes "brace_free p" "list_all token_ok parts"
    and "literal_text parts = [] \<or> hd (literal_text parts) \<noteq> CHR ''{''"
  shows "\<not> prefix (CHR ''{'' # p @ ''}}'') (render parts)"
  using assms(2,3)
proof (induction parts)
  case Nil
  then show ?case by (simp add: render_def)
next
  case (Cons x parts)
  show ?case
  proof (cases x)
    case (Tok n)
    have "\<not> prefix (p @ ''}}'') (CHR ''{'' # n @ ''}}'' @ render parts)"
      using assms(1) by (cases p) (auto simp: brace_free_def)
    then show ?thesis using Tok by (simp add: render_def tok_def)
  next
    case (Lit s)
    show ?thesis
    proof (cases s)
      case Nil
      with Lit Cons show ?thesis by (simp add: render_def literal_text_def)
    next
      case (Cons c cs)
      with Lit \<open>literal_text (x # parts) = [] \<or> hd (literal_text (x # parts)) \<noteq> CHR ''{''\<close>
      show ?thesis by (simp add: render_def literal_text_def)
    qed
  qed
qed

lemma last_open_next:
  "no_double_open (s @ t) \<Longrightarrow> s \<noteq> [] \<Longrightarrow> last s = CHR ''{'' \<Longrightarrow> t = [] \<or> hd t \<noteq> CHR ''{''"
proof (induction s)
  case Nil
  then show ?case by simp
next
  case (Cons c s)
  show ?case
  proof (cases s)
    case Nil
    with Cons.prems show ?thesis
      by (simp add: no_double_open_Cons del: no_double_open.simps)
  next
    case (Cons d ds)
    with Cons.prems Cons.IH show ?thesis
      by (simp add: no_double_open_Cons del: no_double_open.simps)
  qed
qed

lemma replace_render:
  "wf_template parts \<Longrightarrow> brace_free p \<Longrightarrow>
   replace (tok p) v (render parts) = render (map (subst1 p v) parts)"
proof (induction parts)
  case Nil
  then show ?case by (simp add: render_def tok_def)
next
  case (Cons x parts)
  show ?case
  proof (cases x)
    case (Lit s)
    from Cons.prems(1) Lit have ok: "list_all token_ok parts"
      and nd: "no_double_open (s @ literal_text parts)"
      by (simp_all add: wf_template_def literal_text_def)
    have wf: "wf_template parts"
      using ok no_double_open_append_right[OF nd] by (simp add: wf_template_def)
    have IH: "replace (tok p) v (render parts) = render (map (subst1 p v) parts)"
      using Cons.IH[OF wf Cons.prems(2)] .
    have c: "s \<noteq> [] \<and> last s = CHR ''{'' \<longrightarrow> \<not> prefix (CHR ''{'' # p @ ''}}'') (render parts)"
      using last_open_next[OF nd] no_completion[OF Cons.prems(2) ok] by blast
    from replace_literal[OF no_double_open_append_left[OF nd] c, of v] IH Lit
    show ?thesis by (simp add: render_def tok_def)
  next
    case (Tok n)
    from Cons.prems(1) Tok have bf: "brace_free n" and wf: "wf_template parts"
      by (simp_all add: wf_template_def literal_text_def)
    have IH: "replace (tok p) v (render parts) = render (map (subst1 p v) parts)"
      using Cons.IH[OF wf Cons.prems(2)] .
    from replace_tok[OF Cons.prems(2) bf, of v "render parts"] IH Tok
    show ?thesis by (simp add: render_def)
  qed
qed

lemma wf_subst1:
  "wf_template parts \<Longrightarrow> CHR ''{'' \<notin> set v \<Longrightarrow> wf_template (map (subst1 p v) parts)"
proof (induction parts)
  case Nil
  then show ?case by (simp add: wf_template_def)
next
  case (Cons x parts)
  show ?case
  proof (cases x)
    case (Lit s)
    from Cons.prems(1) Lit have ok: "list_all token_ok parts"
      and nd: "no_double_open (s @ literal_text parts)"
      by (simp_all add: wf_template_def literal_text_def)
    have "wf_template parts"
      using ok no_double_open_append_right[OF nd] by (simp add: wf_template_def)
    from Cons.IH[OF this Cons.prems(2)]
    have ok': "list_all token_ok (map (subst1 p v) parts)"
      by (simp add: wf_template_def)
    have mono: "no_double_open (s @ literal_text (map (subst1 p v) parts))"
      using nd ok Cons.prems(2)
    proof (induction parts arbitrary: s)
      case Nil
      then show ?case by simp
    next
      case (Cons y parts)
      show ?case
      proof (cases y)
        case (Lit t)
        with Cons.prems have "no_double_open ((s @ t) @ literal_text parts)"
          by (simp add: literal_text_def)
        from Cons.IH[OF this] Cons.prems Lit show ?thesis by (simp add: literal_text_def)
      next
        case (Tok n)
        with Cons.prems have a: "no_double_open (s @ literal_text parts)"
          by (simp add: literal_text_def)
        from Cons.IH[OF a] Cons.prems
        have b: "no_double_open (s @ literal_text (map (subst1 p v) parts))" by simp
        show ?thesis
          using Tok b no_double_open_insert[OF b Cons.prems(3)]
          by (simp add: literal_text_def)
      qed
    qed
    show ?thesis using Lit ok' mono by (simp add: wf_template_def literal_text_def)
  next
    case (Tok n)
    from Cons.prems(1) Tok have wf: "wf_template parts"
      by (simp_all add: wf_template_def literal_text_def)
    from Cons.IH[OF wf Cons.prems(2)]
    have w: "list_all token_ok (map (subst1 p v) parts)"
      "no_double_open (literal_text (map (subst1 p v) parts))"
      by (simp_all add: wf_template_def)
    show ?thesis
      using Tok w no_double_open_plain[OF Cons.prems(2) w(2)] Cons.prems(1)
      by (simp add: wf_template_def literal_text_def)
  qed
qed

lemma subst_all_Cons:
  "subst_all ps (subst1 p v x) = subst_all ((tok p, v) # ps) x"
  by (cases x) (auto simp: tok_inject)

lemma replace_each_render:
  "token_pairs ps \<Longrightarrow> wf_template parts \<Longrightarrow>
   replace_each ps (render parts) = render (map (subst_all ps) parts)"
proof (induction ps arbitrary: parts)
  case Nil
  have "map (subst_all []) parts = parts"
    by (induction parts) (auto split: part.splits, case_tac a, auto)
  then show ?case by simp
next
  case (Cons kv ps)
  obtain k v where kv: "kv = (k, v)" by (cases kv)
  from Cons.prems(1) kv obtain n where n: "k = tok n" "brace_free n" "CHR ''{'' \<notin> set v"
    and ps: "token_pairs ps"
    by (auto simp: token_pairs_def)
  have "replace_each (kv # ps) (render parts) = replace_each ps (render (map (subst1 n v) parts))"
    using replace_render[OF Cons.prems(2) n(2), of v] kv n(1) by simp
  also have "\<dots> = render (map (subst_all ps) (map (subst1 n v) parts))"
    using Cons.IH[OF ps wf_subst1[OF Cons.prems(2) n(3)]] .
  also have "\<dots> = render (map (subst_all (kv # ps)) parts)"
    using kv n(1) by (simp add: subst_all_Cons o_def)
  finally show ?case .
qed

lemma replace_each_append:
  "replace_each (ps @ qs) content = replace_each qs (replace_each ps content)"
  by (induction ps arbitrary: content) auto

lemma placeholders_tok:
  "placeholders c =
     [(tok ''first_name'', first_name c), (tok ''last_name'', last_name c),
      (tok ''email'', email c), (tok ''company'', company c),
      (tok ''full_name'', strip (first_name c @ '' '' @ last_name c))]"
  by (simp add: placeholders_def tok_def)

lemma custom_placeholders_tok:
  "custom_placeholders c = map (\<lambda>(f, v). (tok (''custom.'' @ f), v)) (custom_fields c)"
  by (simp add: custom_placeholders_def tok_def)

lemma set_strip: "set (strip s) \<subseteq> set s"
proof -
  have "set (strip s) \<subseteq> set (dropWhile is_space s)"
    unfolding strip_def using set_dropWhileD by fastforce
  then show ?thesis using set_dropWhileD by fastforce
qed

lemma token_pairs_contact:
  assumes "plain_contact c"
  shows "token_pairs (placeholders c @ custom_placeholders c)"
proof -
  have full: "CHR ''{'' \<notin> set (strip (first_name c @ '' '' @ last_name c))"
    using assms set_strip[of "first_name c @ '' '' @ last_name c"]
    by (auto simp: plain_contact_def)
  have bf: "brace_free ''first_name''" "brace_free ''last_name''" "brace_free ''email''"
    "brace_free ''company''" "brace_free ''full_name''"
    by (simp_all add: brace_free_def)
  have basic: "token_pairs (placeholders c)"
    unfolding placeholders_tok token_pairs_def
    using assms full bf by (auto simp: plain_contact_def)
  have "list_all (\<lambda>(f, v). brace_free f \<and> CHR ''{'' \<notin> set v) cf \<Longrightarrow>
        token_pairs (map (\<lambda>(f, v). (tok (''custom.'' @ f), v)) cf)" for cf
    by (induction cf) (auto simp: token_pairs_def brace_free_def)
  then have "token_pairs (custom_placeholders c)"
    using assms by (simp add: custom_placeholders_tok plain_contact_def)
  with basic show ?thesis by (simp add: token_pairs_def)
qed

lemma map_of_custom:
  "map_of (map (\<lambda>(f, v). (tok (''custom.'' @ f), v)) cf) (tok n) =
     (if prefix ''custom.'' n then map_of cf (drop 7 n) else None)"
proof (induction cf)
  case Nil
  then show ?case by simp
next
  case (Cons a cf)
  obtain f v where a: "a = (f, v)" by (cases a)
  have "(''custom.'' @ f = n) \<longleftrightarrow> (prefix ''custom.'' n \<and> f = drop 7 n)"
    by (auto simp: prefix_def)
  then show ?case using Cons a by (auto simp: tok_inject)
qed

lemma map_of_contact:
  "map_of (placeholders c @ custom_placeholders c) (tok n) = spec_placeholder_value c n"
proof -
  have custom: "map_of (custom_placeholders c) (tok n) =
      (if prefix ''custom.'' n then map_of (custom_fields c) (drop 7 n) else None)"
    unfolding custom_placeholders_tok by (rule map_of_custom)
  have basic: "map_of (placeholders c) (tok n) =
      (if n = ''first_name'' then Some (first_name c)
       else if n = ''last_name'' then Some (last_name c)
       else if n = ''email'' then Some (email c)
       else if n = ''company'' then Some (company c)
       else if n = ''full_name'' then Some (strip (first_name c @ '' '' @ last_name c))
       else None)"
    unfolding placeholders_tok by (simp add: tok_inject)
  show ?thesis
    unfolding map_of_append map_add_def custom basic spec_placeholder_value_def
    by simp
qed

lemma distinct_keys_contact:
  assumes "distinct (map fst (custom_fields c))"
  shows "distinct (map fst (placeholders c @ custom_placeholders c))"
proof -
  have inj: "inj (\<lambda>f. tok (''custom.'' @ f))"
    by (rule injI) (simp add: tok_inject)
  have m: "map fst (custom_placeholders c) = map (\<lambda>f. tok (''custom.'' @ f)) (map fst (custom_fields c))"
    by (simp add: custom_placeholders_tok o_def split_def)
  have d2: "distinct (map fst (custom_placeholders c))"
    unfolding m
  proof (rule iffD2[OF distinct_map], intro conjI)
    show "distinct (map fst (custom_fields c))" by fact
    show "inj_on (\<lambda>f. tok (''custom.'' @ f)) (set (map fst (custom_fields c)))"
      using inj by (rule inj_on_subset) simp
  qed
  have d1: "distinct (map fst (placeholders c))"
    by (simp add: placeholders_def)
  have disj: "set (map fst (placeholders c)) \<inter> set (map fst (custom_placeholders c)) = {}"
    unfolding m by (auto simp: placeholders_tok tok_inject)
  from d1 d2 disj show ?thesis by simp
qed

lemma token_pairs_set: "set ps = set qs \<Longrightarrow> token_pairs ps = token_pairs qs"
  by (simp add: token_pairs_def list_all_iff)

section \<open>Collections\<close>

lemma map_of_set_fields:
  "map_of (set_fields fs d) k =
     (case map_of (rev fs) k of Some v \<Rightarrow> Some v | None \<Rightarrow> map_of d k)"
proof (induction fs arbitrary: d)
  case Nil
  then show ?case by simp
next
  case (Cons kv fs)
  obtain k' v' where kv: "kv = (k', v')" by (cases kv)
  show ?case
    using Cons.IH[of "AList.update k' v' d"] kv
    by (auto simp: AList.update_conv' map_add_def split: option.splits)
qed

lemma has_name_set_fields:
  "''name'' \<notin> fst ` set fs \<Longrightarrow> has_name n (set_fields fs d) = has_name n d"
proof -
  assume "''name'' \<notin> fst ` set fs"
  then have "map_of (rev fs) ''name'' = None"
    by (simp add: map_of_eq_None_iff)
  then show ?thesis by (simp add: has_name_def map_of_set_fields)
qed

lemma find_after_update:
  "find_one_by_name n docs = Some d \<Longrightarrow> ''name'' \<notin> fst ` set fs \<Longrightarrow>
   find_one_by_name n (update_one_by_name n fs docs) = Some (set_fields fs d)"
  by (induction docs) (auto simp: find_one_by_name_def has_name_set_fields split: if_splits)


section \<open>Recipient resolution\<close>

lemma unique_contacts_emails:
  "set (map email (unique_contacts cs seen)) = set (map email cs) - seen"
  by (induction cs arbitrary: seen) auto

lemma unique_contacts_distinct:
  "distinct (map email (unique_contacts cs seen))"
  by (induction cs arbitrary: seen) (auto simp: unique_contacts_emails[simplified])

lemma unique_contacts_subseq:
  "subseq (unique_contacts cs seen) cs"
  by (induction cs arbitrary: seen) auto

lemma unique_contacts_first:
  "c \<in> set (unique_contacts cs seen) \<Longrightarrow> find (\<lambda>d. email d = email c) cs = Some c"
proof (induction cs arbitrary: seen)
  case Nil
  then show ?case by simp
next
  case (Cons a cs)
  show ?case
  proof (cases "email a \<in> seen")
    case True
    with Cons.prems have in_rest: "c \<in> set (unique_contacts cs seen)" by simp
    then have "email c \<in> set (map email (unique_contacts cs seen))" by simp
    then have "email c \<notin> seen" unfolding unique_contacts_emails by simp
    with True have "email a \<noteq> email c" by auto
    with Cons.IH[OF in_rest] show ?thesis by simp
  next
    case False
    show ?thesis
    proof (cases "c = a")
      case True
      then show ?thesis by simp
    next
      case ne: False
      with False Cons.prems
      have in_rest: "c \<in> set (unique_contacts cs (insert (email a) seen))" by simp
      then have "email c \<in> set (map email (unique_contacts cs (insert (email a) seen)))" by simp
      then have "email a \<noteq> email c" unfolding unique_contacts_emails by auto
      with Cons.IH[OF in_rest] show ?thesis by simp
    qed
  qed
qed

section \<open>The dispatch loop\<close>

lemma send_to_contact_unconfigured:
  "server (smtp_config s) = [] \<Longrightarrow>
   send_to_contact env template attachments contact s =
     (Inl (ValueError ''SMTP configuration not set. Use configure_smtp() first.''), s)"
  by (simp add: send_to_contact_def send_single_email_def)

lemma send_to_contact_sent:
  "server (smtp_config s) \<noteq> [] \<Longrightarrow>
   session_outcome env (smtp_config s) template attachments contact = None \<Longrightarrow>
   send_to_contact env template attachments contact s =
     (Inr True, logged env template attachments contact s)"
  by (simp add: send_to_contact_def send_single_email_def session_outcome_def log_email_def
      attempt_entry_def logged_def)

lemma send_to_contact_failed:
  "server (smtp_config s) \<noteq> [] \<Longrightarrow>
   session_outcome env (smtp_config s) template attachments contact = Some e \<Longrightarrow>
   send_to_contact env template attachments contact s =
     (Inr False, logged env template attachments contact s)"
  by (simp add: send_to_contact_def send_single_email_def session_outcome_def log_email_def
      attempt_entry_def logged_def)

lemma send_all_unconfigured:
  "server (smtp_config s) = [] \<Longrightarrow>
   send_all env template attachments cs (a, b) s = ((a, b + int (length cs)), s)"
  by (induction cs arbitrary: b) (simp_all add: send_to_contact_unconfigured)

lemma send_all_configured:
  "server (smtp_config s) \<noteq> [] \<Longrightarrow>
   send_all env template attachments cs (a, b) s =
     ((a + int (length (filter (delivers env (smtp_config s) template attachments) cs)),
       b + int (length (filter (\<lambda>c. \<not> delivers env (smtp_config s) template attachments c) cs))),
      s\<lparr>email_logs_collection := email_logs_collection s
           @ run_entries env (smtp_config s) template attachments (clock_reads s) cs,
        clock_reads := clock_reads s + length cs\<rparr>)"
proof (induction cs arbitrary: a b s)
  case Nil
  then show ?case by simp
next
  case (Cons c cs)
  let ?s1 = "logged env template attachments c s"
  have cfg: "server (smtp_config ?s1) \<noteq> []" using Cons.prems by (simp add: logged_def)
  show ?case
  proof (cases "session_outcome env (smtp_config s) template attachments c")
    case None
    then have d: "delivers env (smtp_config s) template attachments c"
      using Cons.prems by (simp add: delivers_def)
    show ?thesis
      using Cons.IH[OF cfg, of "a + 1" b] d
      by (simp add: send_to_contact_sent[OF Cons.prems None] logged_def)
  next
    case (Some e)
    then have d: "\<not> delivers env (smtp_config s) template attachments c"
      by (simp add: delivers_def)
    show ?thesis
      using Cons.IH[OF cfg, of a "b + 1"] d
      by (simp add: send_to_contact_failed[OF Cons.prems Some] logged_def)
  qed
qed

lemma filter_partition_length:
  "int (length (filter P xs)) + int (length (filter (\<lambda>x. \<not> P x) xs)) = int (length xs)"
  using sum_length_filter_compl[of P xs] by linarith

lemma not_delivers_unconfigured:
  "server cfg = [] \<Longrightarrow> filter (delivers env cfg template attachments) cs = [] \<and>
     filter (\<lambda>c. \<not> delivers env cfg template attachments c) cs = cs"
  by (simp add: delivers_def)


section \<open>The whole send\<close>

lemma send_campaign_missing:
  "find_one_by_name cname (campaigns_collection s) = None \<Longrightarrow>
   send_campaign env cname attachments s = (Inl (ValueError (''Campaign not found: '' @ cname)), s)"
  by (simp add: send_campaign_def)

lemma send_campaign_found:
  "find_one_by_name cname (campaigns_collection s) = Some campaign_doc \<Longrightarrow>
   send_campaign env cname attachments s = (Inl no_ObjectId, s)"
  by (simp add: send_campaign_def pymongo_ObjectId_def)

lemma all_contacts_raises: "all_contacts s (list_id # rest) = Inl no_ObjectId"
  by (simp add: pymongo_ObjectId_def)

lemma dispatch_configured:
  assumes "server (smtp_config s) \<noteq> []"
  shows "dispatch env cname template gathered attachments s =
    (\<lparr>sent = int (length (filter (delivers env (smtp_config s) template attachments)
                             (unique_contacts gathered {}))),
      failed = int (length (filter (\<lambda>c. \<not> delivers env (smtp_config s) template attachments c)
                             (unique_contacts gathered {}))),
      total = int (length (unique_contacts gathered {}))\<rparr>,
     s\<lparr>email_logs_collection := email_logs_collection s
          @ run_entries env (smtp_config s) template attachments (clock_reads s)
              (unique_contacts gathered {}),
       campaigns_collection :=
         update_one_by_name cname
           (campaign_update
              (datetime_now env (clock_reads s + length (unique_contacts gathered {})))
              (int (length (unique_contacts gathered {})))
              (int (length (filter (delivers env (smtp_config s) template attachments)
                              (unique_contacts gathered {}))))
              (int (length (filter (\<lambda>c. \<not> delivers env (smtp_config s) template attachments c)
                              (unique_contacts gathered {})))))
           (campaigns_collection s),
       clock_reads := Suc (clock_reads s + length (unique_contacts gathered {}))\<rparr>)"
  using assms by (simp add: dispatch_def Let_def send_all_configured)

lemma dispatch_unconfigured:
  assumes "server (smtp_config s) = []"
  shows "dispatch env cname template gathered attachments s =
    (\<lparr>sent = 0, failed = int (length (unique_contacts gathered {})),
      total = int (length (unique_contacts gathered {}))\<rparr>,
     s\<lparr>campaigns_collection :=
         update_one_by_name cname
           (campaign_update (datetime_now env (clock_reads s))
              (int (length (unique_contacts gathered {}))) 0
              (int (length (unique_contacts gathered {}))))
           (campaigns_collection s),
       clock_reads := Suc (clock_reads s)\<rparr>)"
  using assms by (simp add: dispatch_def Let_def send_all_unconfigured)

lemma dispatch_statistics:
  "fst (dispatch env cname template gathered attachments s) =
     \<lparr>sent = int (length (filter (delivers env (smtp_config s) template attachments)
                             (unique_contacts gathered {}))),
      failed = int (length (filter (\<lambda>c. \<not> delivers env (smtp_config s) template attachments c)
                             (unique_contacts gathered {}))),
      total = int (length (unique_contacts gathered {}))\<rparr>"
proof (cases "server (smtp_config s) = []")
  case True
  show ?thesis
    using dispatch_unconfigured[OF True, of env cname template gathered attachments]
      not_delivers_unconfigured[OF True, of env template attachments "unique_contacts gathered {}"]
    by simp
next
  case False
  show ?thesis
    using dispatch_configured[OF False, of env cname template gathered attachments] by simp
qed

lemma dispatch_counts:
  "sent (fst (dispatch env cname template gathered attachments s))
     + failed (fst (dispatch env cname template gathered attachments s))
   = total (fst (dispatch env cname template gathered attachments s))"
  unfolding dispatch_statistics
  using filter_partition_length[of "delivers env (smtp_config s) template attachments"
      "unique_contacts gathered {}"]
  by simp

lemma dispatch_nobody:
  assumes "find_one_by_name cname (campaigns_collection s) = Some campaign_doc"
    and "unique_contacts gathered {} = []"
  shows "fst (dispatch env cname template gathered attachments s)
           = \<lparr>sent = 0, failed = 0, total = 0\<rparr> \<and>
         (\<exists>doc'. find_one_by_name cname
                    (campaigns_collection (snd (dispatch env cname template gathered attachments s)))
                    = Some doc' \<and>
                  map_of doc' ''status'' = Some (StrV ''sent''))"
proof -
  let ?upd = "campaign_update (datetime_now env (clock_reads s)) 0 0 0"
  have keys: "''name'' \<notin> fst ` set ?upd" by (simp add: campaign_update_def)
  have st: "map_of (set_fields ?upd campaign_doc) ''status'' = Some (StrV ''sent'')"
    by (simp add: campaign_update_def update_conv')
  show ?thesis
  proof (cases "server (smtp_config s) = []")
    case True
    show ?thesis
      using dispatch_unconfigured[OF True, of env cname template gathered attachments] assms(2)
        find_after_update[OF assms(1) keys] st
      by simp
  next
    case False
    show ?thesis
      using dispatch_configured[OF False, of env cname template gathered attachments] assms(2)
        find_after_update[OF assms(1) keys] st
      by simp
  qed
qed

lemma campaign_update_keys:
  "map_of (campaign_update now total_count sent_cnt failed_cnt) ''total_recipient''
     = Some (IntV total_count) \<and>
   map_of (campaign_update now total_count sent_cnt failed_cnt) ''total_recipients'' = None"
  by (simp add: campaign_update_def)

lemma updated_contact_raises:
  "Contact_from_document bo_updated
     = Inl (TypeError (''__init__() got an unexpected keyword argument '' @ quoted ''updated_at''))"
  by (simp add: Contact_from_document_def bo_updated_def)

section \<open>The example run\<close>

lemmas demo_defs = demo_manager_def unconfigured_manager_def fresh_manager_def create_campaign_def
  configure_smtp_def find_one_by_name_def has_name_def asdict_Campaign_def spring_def
  initial_smtp_config_def demo_env_def ana_def bo_def welcome_email_def orphan_manager_def
  empty_manager_def spring_doc_def orphan_doc_def nobody_doc_def



lemma demo_unconfigured: "server (smtp_config unconfigured_manager) = []"
  by (simp add: demo_defs)


lemma demo_find: "find_one_by_name ''spring'' (campaigns_collection demo_manager) = Some spring_doc"
  by (simp add: demo_defs)

lemma unconfigured_find:
  "find_one_by_name ''spring'' (campaigns_collection unconfigured_manager) = Some spring_doc"
  by (simp add: demo_defs)

lemma orphan_find:
  "find_one_by_name ''orphan'' (campaigns_collection orphan_manager) = Some orphan_doc"
  by (simp add: demo_defs)

lemma nobody_find:
  "find_one_by_name ''nobody'' (campaigns_collection empty_manager) = Some nobody_doc"
  by (simp add: demo_defs)

section \<open>Claims about the dispatch\<close>


text \<open>
  C2 says that recipient resolution gathers the contacts of the referenced lists,
  deduplicates them and that the size of the result is the returned total. For the
  campaign \<^verbatim>\<open>spring\<close> over list A (one contact) and list B (the same contact and a
  second one) the call raises \<^verbatim>\<open>AttributeError\<close> before any list is read, and the
  gathering loop itself raises at its first \<^verbatim>\<open>pymongo.ObjectId(list_id)\<close>: no send
  sequence is built and no total is returned.
\<close>

theorem resolution_raises:
  "find_one_by_name ''spring'' (campaigns_collection demo_manager) = Some spring_doc \<and>
   getitem spring_doc ''contact_list_ids'' = Inr (ListV [''lA'', ''lB'']) \<and>
   send_campaign demo_env ''spring'' None demo_manager = (Inl no_ObjectId, demo_manager) \<and>
   all_contacts demo_manager [''lA'', ''lB''] = Inl no_ObjectId"
proof -
  have g: "getitem spring_doc ''contact_list_ids'' = Inr (ListV [''lA'', ''lB''])"
    by (simp add: getitem_def spring_doc_def asdict_Campaign_def spring_def)
  show ?thesis
    using demo_find g send_campaign_found[OF demo_find, of demo_env None]
      all_contacts_raises[of demo_manager "''lA''" "[''lB'']"]
    by blast
qed

text \<open>
  C3 says that an unresolvable campaign name and an unresolvable template reference both
  end in a not-found error with nothing written. For the unknown name \<^verbatim>\<open>summer\<close> that
  is what happens. For the campaign \<^verbatim>\<open>orphan\<close>, whose \<^verbatim>\<open>template_id\<close> matches no
  template, nothing is written either, but the error is the \<^verbatim>\<open>AttributeError\<close> of
  \<^verbatim>\<open>pymongo.ObjectId\<close>, not the not-found error: the template look-up is never made.
\<close>

theorem unresolved_template_raises_attribute_error:
  "find_one_by_name ''summer'' (campaigns_collection demo_manager) = None \<and>
   send_campaign demo_env ''summer'' None demo_manager
     = (Inl (ValueError ''Campaign not found: summer''), demo_manager) \<and>
   find_one_by_name ''orphan'' (campaigns_collection orphan_manager) = Some orphan_doc \<and>
   getitem orphan_doc ''template_id'' = Inr (StrV ''t9'') \<and>
   map_of (templates_collection orphan_manager) ''t9'' = None \<and>
   send_campaign demo_env ''orphan'' None orphan_manager = (Inl no_ObjectId, orphan_manager)"
proof -
  have a: "find_one_by_name ''summer'' (campaigns_collection demo_manager) = None"
    by (simp add: demo_defs)
  have c: "getitem orphan_doc ''template_id'' = Inr (StrV ''t9'')"
    by (simp add: getitem_def demo_defs)
  have d: "map_of (templates_collection orphan_manager) ''t9'' = None"
    by (simp add: demo_defs)
  show ?thesis
    using a orphan_find c d send_campaign_missing[OF a, of demo_env None]
      send_campaign_found[OF orphan_find, of demo_env None]
    by simp
qed







text \<open>
  C6 describes the write-back that follows the loop: status \<^verbatim>\<open>sent\<close>, the sent
  timestamp and the three counts. For the campaign \<^verbatim>\<open>spring\<close>, stored by
  \<^verbatim>\<open>create_campaign\<close> and sent with a configured server, \<^verbatim>\<open>send_campaign\<close> raises
  \<^verbatim>\<open>AttributeError\<close> before the template look-up: the write-back is not reached and the
  campaign's document keeps status \<^verbatim>\<open>draft\<close>, no sent timestamp and counts of zero.
\<close>

theorem write_back_not_reached:
  "campaigns_collection demo_manager = [spring_doc] \<and>
   send_campaign demo_env ''spring'' None demo_manager = (Inl no_ObjectId, demo_manager) \<and>
   campaigns_collection (snd (send_campaign demo_env ''spring'' None demo_manager))
     = [spring_doc] \<and>
   map_of spring_doc ''status'' = Some (StrV ''draft'') \<and>
   map_of spring_doc ''sent_at'' = Some NoneV \<and>
   map_of spring_doc ''total_recipients'' = Some (IntV 0) \<and>
   map_of spring_doc ''sent_count'' = Some (IntV 0) \<and>
   map_of spring_doc ''failed_count'' = Some (IntV 0)"
proof -
  have before: "campaigns_collection demo_manager = [spring_doc]"
    by (simp add: demo_defs)
  have keys: "map_of spring_doc ''status'' = Some (StrV ''draft'')"
    "map_of spring_doc ''sent_at'' = Some NoneV"
    "map_of spring_doc ''total_recipients'' = Some (IntV 0)"
    "map_of spring_doc ''sent_count'' = Some (IntV 0)"
    "map_of spring_doc ''failed_count'' = Some (IntV 0)"
    by (simp_all add: spring_doc_def asdict_Campaign_def spring_def)
  show ?thesis
    using send_campaign_found[OF demo_find, of demo_env None] before keys by simp
qed

text \<open>
  C7 says that a dispatch against an existing campaign with an existing template and no
  resolvable recipient returns zeros and sets the status to \<^verbatim>\<open>sent\<close>. For the campaign
  \<^verbatim>\<open>nobody\<close>, whose only list is gone, \<^verbatim>\<open>send_campaign\<close> raises
  \<^verbatim>\<open>AttributeError\<close>; no statistics are returned and the status stays \<^verbatim>\<open>draft\<close>.
\<close>

theorem empty_campaign_raises:
  "find_one_by_name ''nobody'' (campaigns_collection empty_manager) = Some nobody_doc \<and>
   getitem nobody_doc ''template_id'' = Inr (StrV ''t1'') \<and>
   map_of (templates_collection empty_manager) ''t1'' = Some welcome_email \<and>
   getitem nobody_doc ''contact_list_ids'' = Inr (ListV [''lZ'']) \<and>
   map_of (contact_lists_collection empty_manager) ''lZ'' = None \<and>
   send_campaign demo_env ''nobody'' None empty_manager = (Inl no_ObjectId, empty_manager) \<and>
   map_of nobody_doc ''status'' = Some (StrV ''draft'')"
proof -
  have facts: "getitem nobody_doc ''template_id'' = Inr (StrV ''t1'')"
    "map_of (templates_collection empty_manager) ''t1'' = Some welcome_email"
    "getitem nobody_doc ''contact_list_ids'' = Inr (ListV [''lZ''])"
    "map_of (contact_lists_collection empty_manager) ''lZ'' = None"
    "map_of nobody_doc ''status'' = Some (StrV ''draft'')"
    by (simp_all add: getitem_def demo_defs)
  show ?thesis
    using nobody_find send_campaign_found[OF nobody_find, of demo_env None] facts by simp
qed

text \<open>
  C10 says that with the SMTP configuration unset \<^verbatim>\<open>send_campaign\<close> does not raise and
  returns \<open>sent = 0\<close>, \<open>failed = n\<close>, \<open>total = n\<close>. The configuration check of
  \<^verbatim>\<open>send_single_email\<close> does raise before anything is built or logged, as the claim says,
  but \<^verbatim>\<open>send_campaign\<close> never gets to the loop: for the campaign \<^verbatim>\<open>spring\<close> with its
  two recipients it raises \<^verbatim>\<open>AttributeError\<close> and returns no statistics.
\<close>

theorem unconfigured_send_campaign_raises:
  "smtp_config unconfigured_manager = initial_smtp_config \<and>
   server (smtp_config unconfigured_manager) = [] \<and>
   find_one_by_name ''spring'' (campaigns_collection unconfigured_manager) = Some spring_doc \<and>
   send_single_email demo_env ''a@x.com'' ''Hi Ana!'' ''Dear Ana Lee of Acme'' [] None
       unconfigured_manager
     = (Inl (ValueError ''SMTP configuration not set. Use configure_smtp() first.''),
        unconfigured_manager) \<and>
   send_campaign demo_env ''spring'' None unconfigured_manager
     = (Inl no_ObjectId, unconfigured_manager)"
proof -
  have a: "smtp_config unconfigured_manager = initial_smtp_config" by (simp add: demo_defs)
  have g: "send_single_email demo_env ''a@x.com'' ''Hi Ana!'' ''Dear Ana Lee of Acme'' [] None
       unconfigured_manager
     = (Inl (ValueError ''SMTP configuration not set. Use configure_smtp() first.''),
        unconfigured_manager)"
    using demo_unconfigured by (simp add: send_single_email_def)
  show ?thesis
    using a demo_unconfigured unconfigured_find g
      send_campaign_found[OF unconfigured_find, of demo_env None]
    by simp
qed

section \<open>Claims about personalization\<close>

text \<open>
  C8, as the specification states it, quantifies over every template string and every
  contact. The replacements run one after the other on the whole text, so text that a
  replacement leaves behind is replaced again when it reads as a later placeholder. That
  happens when a value contains a placeholder: for the contact whose first name is the
  text \<^verbatim>\<open>{{last_name}}\<close> the template \<^verbatim>\<open>{{first_name}}\<close> becomes the last name. It
  also happens when literal text closes up into a placeholder: for a contact with an
  empty first name the template \<^verbatim>\<open>{{{{first_name}}last_name}}\<close> becomes the last name,
  where the contract (\<open>spec_personalize\<close>) leaves the literal text standing. And it
  happens when a custom field name contains braces: the placeholder of the field
  \<^verbatim>\<open>a}}{{custom.b\<close> takes the two tokens \<^verbatim>\<open>{{custom.a}}{{custom.b}}\<close> for one.
\<close>

theorem personalize_resubstitutes_counterexample:
  "wf_template [Tok ''first_name''] \<and>
   \<not> plain_contact tricky \<and>
   render [Tok ''first_name''] = ''{{first_name}}'' \<and>
   spec_personalize [Tok ''first_name''] tricky = ''{{last_name}}'' \<and>
   personalize_email (render [Tok ''first_name'']) tricky = ''X'' \<and>
   plain_contact nameless \<and>
   \<not> wf_template joined \<and>
   render joined = ''{{{{first_name}}last_name}}'' \<and>
   spec_personalize joined nameless = ''{{last_name}}'' \<and>
   personalize_email (render joined) nameless = ''X'' \<and>
   wf_template custom_pair \<and>
   \<not> plain_contact braced \<and>
   render custom_pair = ''{{custom.a}}{{custom.b}}'' \<and>
   spec_personalize custom_pair braced = ''w{{custom.b}}'' \<and>
   personalize_email (render custom_pair) braced = ''v''"
  by (simp add: wf_template_def brace_free_def literal_text_def render_def tok_def
      spec_personalize_def spec_placeholder_value_def personalize_email_def placeholders_def
      custom_placeholders_def plain_contact_def tricky_def nameless_def joined_def braced_def
      custom_pair_def strip_def is_space_def)

text \<open>
  C8, amended. For every template made of literal text and of tokens \<^verbatim>\<open>{{name}}\<close> with
  brace-free names, whose literal text (the template without its tokens) contains no two
  adjacent opening braces, and for every contact whose values contain no opening brace and
  whose custom field names contain no brace, personalization replaces every token of a
  recognized placeholder (\<^verbatim>\<open>first_name\<close>, \<^verbatim>\<open>last_name\<close>, \<^verbatim>\<open>full_name\<close>,
  \<^verbatim>\<open>email\<close>, \<^verbatim>\<open>company\<close>, and \<^verbatim>\<open>custom.<field>\<close> for each key of the contact's
  custom fields) by the contact's value and leaves every other token, among them
  \<^verbatim>\<open>{{custom.<field>}}\<close> for an absent field, and all literal text, single braces
  included, as they are.
\<close>

theorem personalize_well_formed:
  assumes "wf_template parts" "plain_contact c"
  shows "personalize_email (render parts) c = spec_personalize parts c"
proof -
  let ?ps = "placeholders c @ custom_placeholders c"
  have "personalize_email (render parts) c = replace_each ?ps (render parts)"
    by (simp add: personalize_email_def replace_each_append)
  also have "\<dots> = render (map (subst_all ?ps) parts)"
    using replace_each_render[OF token_pairs_contact[OF assms(2)] assms(1)] .
  also have "\<dots> = spec_personalize parts c"
  proof -
    have "render_part (subst_all ?ps x) = spec_expand c x" for x
      by (cases x) (auto simp: map_of_contact simp del: map_of_append split: option.splits)
    then show ?thesis by (simp add: render_def spec_personalize_def o_def)
  qed
  finally show ?thesis .
qed

theorem personalize_well_formed_witness:
  "wf_template greeting \<and> plain_contact ana \<and>
   render greeting
     = ''p {color: red} Hi {{first_name}}! {{custom.city}} {{custom.zip}}{{unknown}}{'' \<and>
   personalize_email (render greeting) ana
     = ''p {color: red} Hi Ana! Porto {{custom.zip}}{{unknown}}{''"
proof -
  have a: "wf_template greeting"
    by (simp add: greeting_def wf_template_def brace_free_def literal_text_def)
  have b: "plain_contact ana" by (simp add: ana_def plain_contact_def brace_free_def)
  have c: "spec_personalize greeting ana
             = ''p {color: red} Hi Ana! Porto {{custom.zip}}{{unknown}}{''"
    by (simp add: spec_personalize_def greeting_def spec_placeholder_value_def ana_def tok_def)
  have d: "render greeting
             = ''p {color: red} Hi {{first_name}}! {{custom.city}} {{custom.zip}}{{unknown}}{''"
    by (simp add: render_def greeting_def tok_def)
  show ?thesis using a b d personalize_well_formed[OF a b] c by simp
qed

text \<open>
  C9, as the specification states it, makes the result independent of the order of the
  replacements for every template and contact. For the contact whose first name is the
  text \<^verbatim>\<open>{{last_name}}\<close> the source's order turns \<^verbatim>\<open>{{first_name}}\<close> into the last
  name and the reverse order leaves \<^verbatim>\<open>{{last_name}}\<close> in the text; for a contact with
  an empty first name the same holds of the template \<^verbatim>\<open>{{{{first_name}}last_name}}\<close>;
  and for a contact with the custom fields \<^verbatim>\<open>a}}{{custom.b\<close> and \<^verbatim>\<open>a\<close> the two
  orders disagree on the template \<^verbatim>\<open>{{custom.a}}{{custom.b}}\<close>.
\<close>

theorem replacement_order_counterexample:
  "mset (rev (placeholders tricky @ custom_placeholders tricky))
     = mset (placeholders tricky @ custom_placeholders tricky) \<and>
   wf_template [Tok ''first_name''] \<and>
   \<not> plain_contact tricky \<and>
   personalize_email (render [Tok ''first_name'']) tricky = ''X'' \<and>
   replace_each (rev (placeholders tricky @ custom_placeholders tricky))
     (render [Tok ''first_name'']) = ''{{last_name}}'' \<and>
   mset (rev (placeholders nameless @ custom_placeholders nameless))
     = mset (placeholders nameless @ custom_placeholders nameless) \<and>
   plain_contact nameless \<and>
   \<not> wf_template joined \<and>
   personalize_email (render joined) nameless = ''X'' \<and>
   replace_each (rev (placeholders nameless @ custom_placeholders nameless)) (render joined)
     = ''{{last_name}}'' \<and>
   mset (rev (placeholders braced @ custom_placeholders braced))
     = mset (placeholders braced @ custom_placeholders braced) \<and>
   wf_template custom_pair \<and>
   \<not> plain_contact braced \<and>
   distinct (map fst (custom_fields braced)) \<and>
   personalize_email (render custom_pair) braced = ''v'' \<and>
   replace_each (rev (placeholders braced @ custom_placeholders braced)) (render custom_pair)
     = ''w{{custom.b}}''"
  by (simp add: wf_template_def brace_free_def literal_text_def render_def tok_def
      personalize_email_def placeholders_def custom_placeholders_def plain_contact_def
      tricky_def nameless_def joined_def braced_def custom_pair_def strip_def is_space_def)

text \<open>
  C9, amended. For every template made of literal text and of tokens with brace-free
  names, whose literal text contains no two adjacent opening braces, and for every contact
  whose values contain no opening brace and whose custom field names are brace-free and
  pairwise distinct (they are the keys of a dictionary), running the replacements of
  \<^verbatim>\<open>personalize_email\<close> in any order gives the string that \<^verbatim>\<open>personalize_email\<close>
  returns.
\<close>

theorem personalize_any_order:
  assumes wf: "wf_template parts" and pc: "plain_contact c"
    and d: "distinct (map fst (custom_fields c))"
    and perm: "mset ps = mset (placeholders c @ custom_placeholders c)"
  shows "replace_each ps (render parts) = personalize_email (render parts) c"
proof -
  let ?qs = "placeholders c @ custom_placeholders c"
  have sets: "set ps = set ?qs" using perm by (rule mset_eq_setD)
  have tp: "token_pairs ps"
    using token_pairs_contact[OF pc] token_pairs_set[OF sets] by simp
  have dq: "distinct (map fst ?qs)" using distinct_keys_contact[OF d] .
  have "mset (map fst ps) = mset (map fst ?qs)" using perm by (metis mset_map)
  then have dp: "distinct (map fst ps)" using dq by (metis mset_eq_imp_distinct_iff)
  have m: "map_of ps = map_of ?qs"
    using map_of_inject_set[OF dp dq] sets by simp
  have "subst_all ps x = subst_all ?qs x" for x
    by (cases x) (simp_all add: m del: map_of_append)
  then have "subst_all ps = subst_all ?qs" by (rule ext)
  then have "replace_each ps (render parts) = replace_each ?qs (render parts)"
    using replace_each_render[OF tp wf]
      replace_each_render[OF token_pairs_contact[OF pc] wf] by (simp del: map_of_append)
  then show ?thesis by (simp add: personalize_email_def replace_each_append)
qed

theorem personalize_any_order_witness:
  "wf_template greeting \<and> plain_contact ana \<and> distinct (map fst (custom_fields ana)) \<and>
   mset (rev (placeholders ana @ custom_placeholders ana))
     = mset (placeholders ana @ custom_placeholders ana) \<and>
   replace_each (rev (placeholders ana @ custom_placeholders ana)) (render greeting)
     = personalize_email (render greeting) ana"
proof -
  have a: "wf_template greeting"
    by (simp add: greeting_def wf_template_def brace_free_def literal_text_def)
  have b: "plain_contact ana" by (simp add: ana_def plain_contact_def brace_free_def)
  have c: "distinct (map fst (custom_fields ana))" by (simp add: ana_def)
  have d: "mset (rev (placeholders ana @ custom_placeholders ana))
             = mset (placeholders ana @ custom_placeholders ana)"
    by simp
  show ?thesis using a b c d personalize_any_order[OF a b c d] by simp
qed

end
